theory Spec2Isabelle
  imports Main "HOL-Library.Multiset" "HOL-Library.Sublist" "HOL-Library.Product_Lexorder"
begin

section \<open>The tables behind \<^verbatim>\<open>RM/mysql/t_user.py\<close>\<close>

text \<open>
  The module reads and writes three tables through SQL statements. A table is the list of
  its rows in the order the engine enumerates them. The columns are the ones the
  statements name; they are taken as \<^verbatim>\<open>NOT NULL\<close>, strings compare by equality, and a
  \<^verbatim>\<open>DATETIME\<close> is the number of seconds since a midnight.
\<close>

record user_row =
  u_id :: string
  u_name :: string
  u_phone :: string
  u_role :: int
  u_available :: int
  u_status :: int
  u_status_since :: int
  u_pages :: int

record current_row =
  c_reviewerid :: string
  c_start :: int

record history_row =
  h_id :: int
  h_reviewerid :: string
  h_end :: int

text \<open>
  The directory is the three tables and the number of statements that
  \<^verbatim>\<open>cursor.execute\<close> has run so far.
\<close>

record directory =
  user :: "user_row list"
  current :: "current_row list"
  history :: "history_row list"
  executed :: nat

datatype error = AssertionError string

text \<open>Python values, for the arguments whose type \<^verbatim>\<open>pop\<close> checks at run time.\<close>

datatype pyval = PyNone | PyBool bool | PyInt int | PyStr string | PyList "pyval list"

fun truthy :: "pyval \<Rightarrow> bool" where
  "truthy PyNone = False"
| "truthy (PyBool b) = b"
| "truthy (PyInt n) = (n \<noteq> 0)"
| "truthy (PyStr s) = (s \<noteq> [])"
| "truthy (PyList vs) = (vs \<noteq> [])"

text \<open>The tuple \<^verbatim>\<open>(id, name, phone, role, status)\<close> of \<^verbatim>\<open>search\<close> and \<^verbatim>\<open>fetch\<close>.\<close>

type_synonym user_tuple = "string \<times> string \<times> string \<times> int \<times> int"

definition user_tuple_of :: "user_row \<Rightarrow> user_tuple" where
  "user_tuple_of u = (u_id u, u_name u, u_phone u, u_role u, u_status u)"

text \<open>
  The tuple \<^verbatim>\<open>(id, name, phone, role, status, pages_diff, current)\<close> of \<^verbatim>\<open>pop\<close>:
  \<^verbatim>\<open>item[0]\<close> is \<open>r_id\<close> and \<^verbatim>\<open>item[4]\<close> is \<open>r_status\<close>.
\<close>

record pop_row =
  r_id :: string
  r_name :: string
  r_phone :: string
  r_role :: int
  r_status :: int
  r_pages_diff :: int
  r_current :: int

section \<open>What the SQL engine decides\<close>

text \<open>
  \<^verbatim>\<open>ORDER BY current, pages_diff\<close> returns the rows sorted by the two columns. The
  engine's sort is a parameter \<open>ob\<close> of \<^verbatim>\<open>pop\<close>, and \<open>sql_order_by\<close> is what the
  statement asks of it: the same rows, sorted by the key. The engine that keeps rows of
  equal key in the order it enumerates them is the stable sort \<open>sort_key\<close>.
\<close>

type_synonym order_by = "(pop_row \<Rightarrow> int \<times> int) \<Rightarrow> pop_row list \<Rightarrow> pop_row list"

definition sql_order_by :: "order_by \<Rightarrow> bool" where
  "sql_order_by ob \<longleftrightarrow> (\<forall>k xs. mset (ob k xs) = mset xs \<and> sorted (map k (ob k xs)))"

text \<open>\<^verbatim>\<open>DATEDIFF(a, b)\<close>: the number of days from the date of \<open>b\<close> to the date of \<open>a\<close>.\<close>

definition DATEDIFF :: "int \<Rightarrow> int \<Rightarrow> int" where
  "DATEDIFF a b = a div 86400 - b div 86400"

section \<open>The query of \<^verbatim>\<open>pop\<close>\<close>

text \<open>\<^verbatim>\<open>SELECT reviewerid, end FROM history ORDER BY id DESC LIMIT 1\<close>\<close>

definition latest_history :: "history_row list \<Rightarrow> history_row list" where
  "latest_history hs = take 1 (sort_key (\<lambda>h. - h_id h) hs)"

text \<open>
  \<^verbatim>\<open>NOT EXISTS (SELECT 1 FROM current WHERE current.start > latest_history.end
  AND current.reviewerid != '')\<close>
\<close>

definition started_after :: "current_row list \<Rightarrow> history_row \<Rightarrow> bool" where
  "started_after cs h \<longleftrightarrow> (\<exists>c \<in> set cs. c_start c > h_end h \<and> c_reviewerid c \<noteq> [])"

text \<open>
  The scalar subquery that \<^verbatim>\<open>id\<close> is compared with: the reviewer of the latest history
  row when the \<^verbatim>\<open>WHERE\<close> keeps that row, \<^verbatim>\<open>NULL\<close> (\<open>None\<close>) otherwise.
\<close>

definition last_reviewer :: "directory \<Rightarrow> string option" where
  "last_reviewer d =
     (case filter (\<lambda>h. \<not> started_after (current d) h) (latest_history (history d)) of
        [] \<Rightarrow> None
      | h # _ \<Rightarrow> Some (h_reviewerid h))"

text \<open>\<^verbatim>\<open>IF(id = (...), -1, status)\<close>: a comparison with \<^verbatim>\<open>NULL\<close> is not true.\<close>

definition effective_status :: "directory \<Rightarrow> user_row \<Rightarrow> int" where
  "effective_status d u = (if Some (u_id u) = last_reviewer d then - 1 else u_status u)"

text \<open>\<^verbatim>\<open>SELECT reviewerid, COUNT(1) AS current FROM current GROUP BY reviewerid\<close>\<close>

definition temp_count :: "current_row list \<Rightarrow> (string \<times> int) list" where
  "temp_count cs =
     map (\<lambda>k. (k, int (length (filter (\<lambda>c. c_reviewerid c = k) cs))))
       (remdups (map c_reviewerid cs))"

text \<open>
  \<^verbatim>\<open>user LEFT JOIN temp_count ON user.id = temp_count.reviewerid\<close>: a user row with no
  partner is kept, with \<^verbatim>\<open>NULL\<close> for the count.
\<close>

definition left_join :: "user_row list \<Rightarrow> (string \<times> int) list \<Rightarrow> (user_row \<times> int option) list" where
  "left_join us ts =
     concat (map (\<lambda>u.
       (case filter (\<lambda>t. u_id u = fst t) ts of
          [] \<Rightarrow> [(u, None)]
        | ms \<Rightarrow> map (\<lambda>t. (u, Some (snd t))) ms)) us)"

definition eligible :: "user_row \<Rightarrow> bool" where
  "eligible u \<longleftrightarrow> u_available u = 1 \<and> u_role u = 1"

text \<open>
  \<^verbatim>\<open>SELECT MIN(pages) FROM user WHERE user.available = 1 AND user.role = 1\<close>, which is
  \<^verbatim>\<open>NULL\<close> when no row is eligible.
\<close>

definition min_pages :: "user_row list \<Rightarrow> int option" where
  "min_pages us =
     (case map u_pages (filter eligible us) of
        [] \<Rightarrow> None
      | p # ps \<Rightarrow> Some (fold min ps p))"

text \<open>
  One row of the result. \<^verbatim>\<open>IFNULL(current, 0)\<close> is the count, or 0 without a partner.
  The row is built for eligible users only, where the minimum exists; the difference
  with a \<^verbatim>\<open>NULL\<close> minimum never reaches a result row and is written as 0.
\<close>

definition select_row :: "directory \<Rightarrow> user_row \<times> int option \<Rightarrow> pop_row" where
  "select_row d uc =
     \<lparr> r_id = u_id (fst uc), r_name = u_name (fst uc), r_phone = u_phone (fst uc),
       r_role = u_role (fst uc),
       r_status = effective_status d (fst uc),
       r_pages_diff = (case min_pages (user d) of
                         None \<Rightarrow> 0
                       | Some m \<Rightarrow> u_pages (fst uc) - m),
       r_current = (case snd uc of None \<Rightarrow> 0 | Some n \<Rightarrow> n) \<rparr>"

definition order_key :: "pop_row \<Rightarrow> int \<times> int" where
  "order_key r = (r_current r, r_pages_diff r)"

text \<open>The rows of the statement before \<^verbatim>\<open>ORDER BY\<close>, then the statement itself.\<close>

definition select_rows :: "directory \<Rightarrow> pop_row list" where
  "select_rows d =
     map (select_row d)
       (filter (\<lambda>uc. eligible (fst uc)) (left_join (user d) (temp_count (current d))))"

definition select_workload :: "order_by \<Rightarrow> directory \<Rightarrow> pop_row list" where
  "select_workload ob d = ob order_key (select_rows d)"

section \<open>The functions of the module\<close>

text \<open>\<^verbatim>\<open>cursor.execute\<close> of a statement that only reads.\<close>

definition ran_statement :: "directory \<Rightarrow> directory" where
  "ran_statement d = d\<lparr>executed := executed d + 1\<rparr>"

text \<open>
  \<^verbatim>\<open>search\<close>: the pattern of each \<^verbatim>\<open>LIKE\<close> is \<^verbatim>\<open>'%{}%'.format(arg)\<close>. What a pattern
  matches is the engine's, the parameter \<open>like\<close> (value first, pattern second).
\<close>

definition like_pattern :: "string \<Rightarrow> string" where
  "like_pattern s = ''%'' @ s @ ''%''"

definition search ::
  "(string \<Rightarrow> string \<Rightarrow> bool) \<Rightarrow> string \<Rightarrow> string \<Rightarrow> string \<Rightarrow> bool \<Rightarrow> directory
     \<Rightarrow> user_tuple list \<times> directory" where
  "search like user_id name phone only_reviewer d =
     (if only_reviewer then
        (map user_tuple_of
           (filter (\<lambda>u. u_available u = 1 \<and> u_role u = 1 \<and> like (u_id u) (like_pattern user_id)
                        \<and> like (u_name u) (like_pattern name)
                        \<and> like (u_phone u) (like_pattern phone)) (user d)),
         ran_statement d)
      else
        (map user_tuple_of
           (filter (\<lambda>u. u_available u = 1 \<and> like (u_id u) (like_pattern user_id)
                        \<and> like (u_name u) (like_pattern name)
                        \<and> like (u_phone u) (like_pattern phone)) (user d)),
         ran_statement d))"

text \<open>\<^verbatim>\<open>cursor.fetchone()\<close>: the first row, or \<^verbatim>\<open>None\<close>.\<close>

fun fetchone :: "'a list \<Rightarrow> 'a option" where
  "fetchone [] = None"
| "fetchone (x # xs) = Some x"

definition fetch :: "string \<Rightarrow> directory \<Rightarrow> user_tuple option \<times> directory" where
  "fetch user_id d =
     (fetchone (map user_tuple_of (filter (\<lambda>u. u_id u = user_id) (user d))),
      ran_statement d)"

text \<open>\<^verbatim>\<open>__contains__\<close>: \<^verbatim>\<open>bool(row)\<close> of the first row of \<^verbatim>\<open>SELECT 1\<close>.\<close>

definition contains :: "string \<Rightarrow> bool \<Rightarrow> directory \<Rightarrow> bool \<times> directory" where
  "contains user_id only_reviewer d =
     (if only_reviewer then
        (fetchone (map (\<lambda>u. 1::int)
           (filter (\<lambda>u. u_available u = 1 \<and> u_role u = 1 \<and> u_id u = user_id) (user d))) \<noteq> None,
         ran_statement d)
      else
        (fetchone (map (\<lambda>u. 1::int)
           (filter (\<lambda>u. u_available u = 1 \<and> u_id u = user_id) (user d))) \<noteq> None,
         ran_statement d))"

text \<open>The slice \<^verbatim>\<open>xs[0:n]\<close> of Python: a negative \<open>n\<close> counts from the end.\<close>

definition slice_to :: "'a list \<Rightarrow> int \<Rightarrow> 'a list" where
  "slice_to xs n = (if n < 0 then take (nat (int (length xs) + n)) xs else take (nat n) xs)"

text \<open>The three list comprehensions of \<^verbatim>\<open>pop\<close>.\<close>

definition drop_excluded :: "pyval list \<Rightarrow> pop_row list \<Rightarrow> pop_row list" where
  "drop_excluded excludes rs = filter (\<lambda>item. PyStr (r_id item) \<notin> set excludes) rs"

definition idle_first :: "pop_row list \<Rightarrow> pop_row list" where
  "idle_first rs = filter (\<lambda>item. r_status item = 0) rs @ filter (\<lambda>item. r_status item \<noteq> 0) rs"

definition hide_busy_rows :: "pop_row list \<Rightarrow> pop_row list" where
  "hide_busy_rows rs = filter (\<lambda>item. r_status item = 0 \<or> r_status item = 1) rs"

text \<open>
  \<^verbatim>\<open>pop\<close>, its argument \<^verbatim>\<open>count\<close> written \<open>cnt\<close>. The two assertions come before
  the connection is opened; a falsy \<^verbatim>\<open>excludes\<close> is replaced by the empty list before
  its type is looked at.
\<close>

definition pop ::
  "order_by \<Rightarrow> pyval \<Rightarrow> pyval \<Rightarrow> bool \<Rightarrow> bool \<Rightarrow> directory \<Rightarrow> (error + pop_row list) \<times> directory" where
  "pop ob cnt excludes urgent hide_busy d =
     (case cnt of
        PyInt n \<Rightarrow>
          (case (if \<not> truthy excludes then PyList [] else excludes) of
             PyList es \<Rightarrow>
               (let selectResults = select_workload ob d;
                    selectResults = drop_excluded es selectResults;
                    selectResults = (if urgent then idle_first selectResults else selectResults);
                    selectResults = (if hide_busy then hide_busy_rows selectResults
                                     else selectResults)
                in (Inr (slice_to selectResults n), ran_statement d))
           | _ \<Rightarrow> (Inl (AssertionError ''invalid arg: excludes''), d))
      | _ \<Rightarrow> (Inl (AssertionError ''invalid arg: count''), d))"

text \<open>
  \<^verbatim>\<open>set_status\<close>, with \<open>now\<close> the value of \<^verbatim>\<open>NOW()\<close>. The existence check is
  \<^verbatim>\<open>__contains__(user_id)\<close>, whose \<^verbatim>\<open>only_reviewer\<close> is left at its default.
\<close>

definition update_status :: "string \<Rightarrow> int \<Rightarrow> int \<Rightarrow> user_row list \<Rightarrow> user_row list" where
  "update_status user_id st now us =
     map (\<lambda>u. if u_id u = user_id then u\<lparr>u_status := st, u_status_since := now\<rparr> else u) us"

definition set_status :: "int \<Rightarrow> string \<Rightarrow> int \<Rightarrow> directory \<Rightarrow> (error + unit) \<times> directory" where
  "set_status now user_id st d =
     (case contains user_id False d of
        (found, d1) \<Rightarrow>
          if \<not> found then (Inl (AssertionError ''invalid arg: user_id''), d1)
          else if st \<notin> set [0, 1, 2] then (Inl (AssertionError ''invalid arg: status''), d1)
          else (Inr (), d1\<lparr>user := update_status user_id st now (user d1),
                            executed := executed d1 + 1\<rparr>))"

text \<open>\<^verbatim>\<open>reset_status\<close>, with \<open>now\<close> the value of \<^verbatim>\<open>NOW()\<close>.\<close>

definition stale :: "int \<Rightarrow> int \<Rightarrow> user_row \<Rightarrow> bool" where
  "stale now days u \<longleftrightarrow> u_status u \<noteq> 0 \<and> DATEDIFF now (u_status_since u) \<ge> days"

definition reset_status :: "int \<Rightarrow> int \<Rightarrow> directory \<Rightarrow> directory" where
  "reset_status now days d =
     d\<lparr>user := map (\<lambda>u. if stale now days u then u\<lparr>u_status := 0, u_status_since := now\<rparr> else u)
                (user d),
       executed := executed d + 1\<rparr>"

section \<open>The specification's words\<close>

text \<open>
  The anti-repeat condition as the specification words it: the reviewer is the one of
  the history record with the maximum id, and no active assignment with a non-empty
  reviewer id started strictly after that record ended.
\<close>

definition anti_repeat_spec :: "directory \<Rightarrow> string \<Rightarrow> bool" where
  "anti_repeat_spec d i \<longleftrightarrow>
     (\<exists>h \<in> set (history d).
        (\<forall>h' \<in> set (history d). h_id h' \<le> h_id h) \<and> h_reviewerid h = i \<and>
        \<not> (\<exists>c \<in> set (current d). c_reviewerid c \<noteq> [] \<and> h_end h < c_start c))"



text \<open>
  The eligible reviewers left after the stages of \<^verbatim>\<open>pop\<close>, counted on the tables:
  available reviewers whose id is not excluded and, when the busy are hidden, who are
  not flagged by the anti-repeat condition and whose stored status is 0 or 1.
\<close>

definition surviving_reviewers :: "directory \<Rightarrow> pyval list \<Rightarrow> bool \<Rightarrow> user_row list" where
  "surviving_reviewers d es hide_busy =
     filter (\<lambda>u. u_available u = 1 \<and> u_role u = 1 \<and> PyStr (u_id u) \<notin> set es \<and>
                 (hide_busy \<longrightarrow> \<not> anti_repeat_spec d (u_id u) \<and>
                    (u_status u = 0 \<or> u_status u = 1))) (user d)"

text \<open>The invariant of the data model: every stored status is 0, 1 or 2.\<close>

definition valid_statuses :: "directory \<Rightarrow> bool" where
  "valid_statuses d \<longleftrightarrow> (\<forall>u \<in> set (user d). u_status u = 0 \<or> u_status u = 1 \<or> u_status u = 2)"

text \<open>The tables of a directory, without the statement counter.\<close>

definition tables :: "directory \<Rightarrow> user_row list \<times> current_row list \<times> history_row list" where
  "tables d = (user d, current d, history d)"

text \<open>
  The arguments \<^verbatim>\<open>excludes\<close> that \<^verbatim>\<open>pop\<close> accepts: a list, or any falsy value (which it
  replaces by the empty list); \<open>excluded_ids\<close> is the list it then works with.
\<close>

definition well_formed_excludes :: "pyval \<Rightarrow> bool" where
  "well_formed_excludes ex \<longleftrightarrow> (case ex of PyList es \<Rightarrow> True | _ \<Rightarrow> \<not> truthy ex)"

definition excluded_ids :: "pyval \<Rightarrow> pyval list" where
  "excluded_ids ex = (case ex of PyList es \<Rightarrow> es | _ \<Rightarrow> [])"

text \<open>The rows that survive the exclusion, urgency and busy-hiding stages, before the slice.\<close>

definition survivors :: "order_by \<Rightarrow> pyval \<Rightarrow> bool \<Rightarrow> bool \<Rightarrow> directory \<Rightarrow> pop_row list" where
  "survivors ob ex urgent hide_busy d =
     (let rs = drop_excluded (excluded_ids ex) (select_workload ob d);
          rs = (if urgent then idle_first rs else rs)
      in if hide_busy then hide_busy_rows rs else rs)"

section \<open>Example directories\<close>

text \<open>
  Reviewers a, b, c of the specification's example (a finished last and nothing started
  since), a very busy reviewer f, an ordinary user d and a deleted reviewer e. The clock
  of the examples reads day 10.
\<close>

definition mk_user :: "string \<Rightarrow> int \<Rightarrow> int \<Rightarrow> int \<Rightarrow> int \<Rightarrow> int \<Rightarrow> user_row" where
  "mk_user i role available status since pages =
     \<lparr> u_id = i, u_name = i, u_phone = i, u_role = role, u_available = available,
       u_status = status, u_status_since = since, u_pages = pages \<rparr>"

definition mk_pop :: "string \<Rightarrow> int \<Rightarrow> int \<Rightarrow> int \<Rightarrow> pop_row" where
  "mk_pop i status pages_diff cur =
     \<lparr> r_id = i, r_name = i, r_phone = i, r_role = 1, r_status = status,
       r_pages_diff = pages_diff, r_current = cur \<rparr>"

definition office :: directory where
  "office =
     \<lparr> user = [mk_user ''a'' 1 1 0 0 5, mk_user ''b'' 1 1 0 0 7, mk_user ''c'' 1 1 1 0 5,
               mk_user ''d'' 0 1 2 0 0, mk_user ''e'' 1 0 2 0 1, mk_user ''f'' 1 1 2 800000 9],
       current = [\<lparr> c_reviewerid = ''c'', c_start = 50 \<rparr>],
       history = [\<lparr> h_id = 1, h_reviewerid = ''b'', h_end = 10 \<rparr>,
                  \<lparr> h_id = 2, h_reviewerid = ''a'', h_end = 100 \<rparr>],
       executed = 0 \<rparr>"

definition day10 :: int where
  "day10 = 864000"


section \<open>Facts about the query\<close>

lemma sql_order_by_sort_key: "sql_order_by sort_key"
  by (simp add: sql_order_by_def)

lemma set_select_workload:
  "sql_order_by ob \<Longrightarrow> set (select_workload ob d) = set (select_rows d)"
  unfolding sql_order_by_def select_workload_def by (metis mset_eq_setD)

lemma length_select_workload:
  "sql_order_by ob \<Longrightarrow> length (select_workload ob d) = length (select_rows d)"
  unfolding sql_order_by_def select_workload_def by (metis mset_eq_length)

text \<open>The grouped counts have one row for each reviewer id, so the join keeps one row for each user.\<close>

lemma filter_keyed:
  "distinct ks \<Longrightarrow>
   filter (\<lambda>t. i = fst t) (map (\<lambda>k. (k, f k)) ks) = (if i \<in> set ks then [(i, f i)] else [])"
  by (induction ks) auto

lemma filter_temp_count:
  "filter (\<lambda>t. i = fst t) (temp_count cs) =
     (if i \<in> c_reviewerid ` set cs
      then [(i, int (length (filter (\<lambda>c. c_reviewerid c = i) cs)))] else [])"
  unfolding temp_count_def by (simp add: filter_keyed)

lemma left_join_temp_count:
  "left_join us (temp_count cs) =
     map (\<lambda>u. (u, if u_id u \<in> c_reviewerid ` set cs
                   then Some (int (length (filter (\<lambda>c. c_reviewerid c = u_id u) cs)))
                   else None)) us"
  unfolding left_join_def by (induction us) (simp_all add: filter_temp_count)

lemma select_rows_eq:
  "select_rows d =
     map (\<lambda>u. select_row d (u, if u_id u \<in> c_reviewerid ` set (current d)
                   then Some (int (length (filter (\<lambda>c. c_reviewerid c = u_id u) (current d))))
                   else None)) (filter eligible (user d))"
  unfolding select_rows_def left_join_temp_count by (simp add: filter_map comp_def)

text \<open>The latest history row is a row of maximum id.\<close>

lemma latest_history_Nil: "latest_history [] = []"
  by (simp add: latest_history_def)

lemma latest_history_max:
  assumes "hs \<noteq> []"
  shows "\<exists>h. latest_history hs = [h] \<and> h \<in> set hs \<and> (\<forall>h' \<in> set hs. h_id h' \<le> h_id h)"
proof -
  let ?ss = "sort_key (\<lambda>h. - h_id h) hs"
  from assms have "?ss \<noteq> []" by (metis length_0_conv length_sort)
  then obtain h ts where ss: "?ss = h # ts" by (cases ?ss) auto
  have srt: "sorted (map (\<lambda>h. - h_id h) ?ss)" by simp
  have st: "set ?ss = set hs" by simp
  have "\<forall>h' \<in> set hs. h_id h' \<le> h_id h"
  proof
    fix h' assume "h' \<in> set hs"
    then have "h' = h \<or> h' \<in> set ts" using st ss by auto
    moreover have "\<forall>y \<in> set ts. - h_id h \<le> - h_id y" using srt unfolding ss by simp
    ultimately show "h_id h' \<le> h_id h" by auto
  qed
  moreover have "h \<in> set hs" using st ss by auto
  moreover have "latest_history hs = [h]" by (simp add: latest_history_def ss)
  ultimately show ?thesis by blast
qed

section \<open>The effective status\<close>

text \<open>When history ids are distinct, the scalar subquery is the specification's condition.\<close>

lemma last_reviewer_spec:
  assumes "distinct (map h_id (history d))"
  shows "last_reviewer d = Some i \<longleftrightarrow> anti_repeat_spec d i"
proof (cases "history d = []")
  case True
  then show ?thesis
    by (simp add: last_reviewer_def anti_repeat_spec_def latest_history_Nil)
next
  case False
  from latest_history_max [OF False] obtain h where
    lh: "latest_history (history d) = [h]" and hin: "h \<in> set (history d)"
    and hmax: "\<forall>h' \<in> set (history d). h_id h' \<le> h_id h" by blast
  have inj: "inj_on h_id (set (history d))"
    using assms by (simp add: distinct_map)
  have uniq: "h' = h" if "h' \<in> set (history d)" "\<forall>k \<in> set (history d). h_id k \<le> h_id h'" for h'
  proof -
    have "h_id h' = h_id h" using that hin hmax by (meson order_antisym)
    then show ?thesis using inj that(1) hin by (meson inj_onD)
  qed
  have sa: "started_after (current d) h \<longleftrightarrow>
     (\<exists>c \<in> set (current d). c_reviewerid c \<noteq> [] \<and> h_end h < c_start c)"
    by (auto simp: started_after_def)
  show ?thesis
  proof
    assume "last_reviewer d = Some i"
    then have "\<not> started_after (current d) h \<and> h_reviewerid h = i"
      by (simp add: last_reviewer_def lh split: if_splits)
    then show "anti_repeat_spec d i"
      unfolding anti_repeat_spec_def using hin hmax sa by blast
  next
    assume "anti_repeat_spec d i"
    then obtain h' where h': "h' \<in> set (history d)" "\<forall>k \<in> set (history d). h_id k \<le> h_id h'"
      "h_reviewerid h' = i" "\<not> (\<exists>c \<in> set (current d). c_reviewerid c \<noteq> [] \<and> h_end h' < c_start c)"
      unfolding anti_repeat_spec_def by blast
    then have "h' = h" using uniq by blast
    then show "last_reviewer d = Some i"
      using h' sa by (simp add: last_reviewer_def lh)
  qed
qed

lemma select_rows_iff:
  "r \<in> set (select_rows d) \<longleftrightarrow>
     (\<exists>u \<in> set (user d). eligible u \<and>
        r = select_row d (u, if u_id u \<in> c_reviewerid ` set (current d)
                   then Some (int (length (filter (\<lambda>c. c_reviewerid c = u_id u) (current d))))
                   else None))"
  unfolding select_rows_eq set_map set_filter by blast

lemma select_row_id: "r_id (select_row d uc) = u_id (fst uc)"
  by (simp add: select_row_def)

lemma select_row_status: "r_status (select_row d uc) = effective_status d (fst uc)"
  by (simp add: select_row_def)

lemma office_history: "distinct (map h_id (history office))"
  by (simp add: office_def)

lemma office_workload:
  "select_workload sort_key office =
     [mk_pop ''a'' (- 1) 0 0, mk_pop ''b'' 0 2 0, mk_pop ''f'' 2 4 0, mk_pop ''c'' 1 0 1]"
  by (simp add: select_workload_def select_rows_def left_join_def temp_count_def office_def
      mk_user_def mk_pop_def eligible_def select_row_def min_pages_def effective_status_def
      last_reviewer_def latest_history_def started_after_def order_key_def)

text \<open>
  C1. For every engine sort and every directory whose history ids are distinct, each row
  of the ordered result of the query of \<^verbatim>\<open>pop\<close> comes from an eligible user, and its
  status column is -1 when that user's id is the reviewer of the history record of maximum
  id and no active assignment with a non-empty reviewer id started strictly after that
  record ended, and the stored status otherwise. So, for a stored status other than -1,
  the column is -1 if and only if the condition holds. Every eligible user has such a row.
\<close>

theorem effective_status_anti_repeat:
  assumes "sql_order_by ob" and "distinct (map h_id (history d))"
  shows "(\<forall>r \<in> set (select_workload ob d). \<exists>u \<in> set (user d).
            eligible u \<and> r_id r = u_id u \<and>
            r_status r = (if anti_repeat_spec d (u_id u) then - 1 else u_status u) \<and>
            (u_status u \<noteq> - 1 \<longrightarrow> (r_status r = - 1 \<longleftrightarrow> anti_repeat_spec d (u_id u)))) \<and>
         (\<forall>u \<in> set (user d). eligible u \<longrightarrow>
            (\<exists>r \<in> set (select_workload ob d). r_id r = u_id u \<and>
               r_status r = (if anti_repeat_spec d (u_id u) then - 1 else u_status u)))"
proof -
  have eff: "effective_status d u = (if anti_repeat_spec d (u_id u) then - 1 else u_status u)" for u
    using last_reviewer_spec [OF assms(2), of "u_id u"]
    by (auto simp: effective_status_def)
  have rows: "set (select_workload ob d) = set (select_rows d)"
    by (rule set_select_workload [OF assms(1)])
  have fwd: "\<exists>u \<in> set (user d).
            eligible u \<and> r_id r = u_id u \<and>
            r_status r = (if anti_repeat_spec d (u_id u) then - 1 else u_status u) \<and>
            (u_status u \<noteq> - 1 \<longrightarrow> (r_status r = - 1 \<longleftrightarrow> anti_repeat_spec d (u_id u)))"
    if "r \<in> set (select_rows d)" for r
  proof -
    from that obtain u c where u: "u \<in> set (user d)" "eligible u" "r = select_row d (u, c)"
      unfolding select_rows_iff by blast
    have "r_id r = u_id u" "r_status r = (if anti_repeat_spec d (u_id u) then - 1 else u_status u)"
      using u(3) by (simp_all add: select_row_id select_row_status eff)
    then show ?thesis using u(1,2) by (intro bexI [of _ u]) auto
  qed
  have bwd: "\<exists>r \<in> set (select_rows d). r_id r = u_id u \<and>
               r_status r = (if anti_repeat_spec d (u_id u) then - 1 else u_status u)"
    if "u \<in> set (user d)" "eligible u" for u
  proof -
    from that obtain r c where r: "r \<in> set (select_rows d)" "r = select_row d (u, c)"
      unfolding select_rows_iff by blast
    have "r_id r = u_id u" "r_status r = (if anti_repeat_spec d (u_id u) then - 1 else u_status u)"
      using r(2) by (simp_all add: select_row_id select_row_status eff)
    then show ?thesis using r(1) by blast
  qed
  show ?thesis
    unfolding rows using fwd bwd by blast
qed

theorem effective_status_anti_repeat_witness:
  "sql_order_by sort_key \<and> distinct (map h_id (history office)) \<and>
   mk_pop ''a'' (- 1) 0 0 \<in> set (select_workload sort_key office) \<and>
   anti_repeat_spec office ''a'' \<and>
   mk_pop ''b'' 0 2 0 \<in> set (select_workload sort_key office) \<and>
   \<not> anti_repeat_spec office ''b''"
proof -
  note t = effective_status_anti_repeat [OF sql_order_by_sort_key office_history]
  have us: "\<forall>u \<in> set (user office). u_status u \<noteq> - 1"
    by (simp add: office_def mk_user_def)
  have a: "mk_pop ''a'' (- 1) 0 0 \<in> set (select_workload sort_key office)"
    and b: "mk_pop ''b'' 0 2 0 \<in> set (select_workload sort_key office)"
    by (simp_all add: office_workload)
  from t a obtain u where u: "u \<in> set (user office)" "r_id (mk_pop ''a'' (- 1) 0 0) = u_id u"
    "u_status u \<noteq> - 1 \<longrightarrow> (r_status (mk_pop ''a'' (- 1) 0 0) = - 1 \<longleftrightarrow> anti_repeat_spec office (u_id u))"
    by blast
  then have ar: "anti_repeat_spec office ''a''"
    using us by (simp add: mk_pop_def)
  from t b obtain v where v: "v \<in> set (user office)" "r_id (mk_pop ''b'' 0 2 0) = u_id v"
    "u_status v \<noteq> - 1 \<longrightarrow> (r_status (mk_pop ''b'' 0 2 0) = - 1 \<longleftrightarrow> anti_repeat_spec office (u_id v))"
    by blast
  then have br: "\<not> anti_repeat_spec office ''b''"
    using us by (simp add: mk_pop_def)
  show ?thesis
    using a b ar br sql_order_by_sort_key office_history by simp
qed

section \<open>The pipeline of \<^verbatim>\<open>pop\<close>\<close>

lemma pop_well_formed:
  assumes "well_formed_excludes ex"
  shows "pop ob (PyInt n) ex urgent hb d =
           (Inr (slice_to (survivors ob ex urgent hb d) n), ran_statement d)"
  using assms
  by (cases ex)
     (simp_all add: pop_def well_formed_excludes_def excluded_ids_def survivors_def Let_def)

lemma pop_Inr:
  assumes "pop ob cnt ex urgent hb d = (Inr rs, d')"
  shows "\<exists>n. cnt = PyInt n \<and> well_formed_excludes ex \<and>
              rs = slice_to (survivors ob ex urgent hb d) n \<and> d' = ran_statement d"
proof -
  from assms obtain n where n: "cnt = PyInt n"
    by (cases cnt) (simp_all add: pop_def)
  have wf: "well_formed_excludes ex"
    using assms unfolding n
    by (cases ex) (simp_all add: pop_def well_formed_excludes_def split: if_splits)
  from pop_well_formed [OF wf] assms n show ?thesis
    using wf by simp
qed

lemma set_slice_to: "set (slice_to xs n) \<subseteq> set xs"
  by (simp add: slice_to_def set_take_subset)

lemma length_slice_to: "length (slice_to xs n) \<le> length xs"
  by (auto simp: slice_to_def)

lemma length_slice_to_count: "0 \<le> n \<Longrightarrow> length (slice_to xs n) \<le> nat n"
  by (simp add: slice_to_def)

lemma set_idle_first: "set (idle_first rs) = set rs"
  by (auto simp: idle_first_def)

lemma length_idle_first: "length (idle_first rs) = length rs"
  unfolding idle_first_def length_append by (simp only: sum_length_filter_compl)

lemma set_survivors:
  "set (survivors ob ex urgent hb d) \<subseteq> set (select_workload ob d)"
  by (auto simp: survivors_def Let_def hide_busy_rows_def drop_excluded_def set_idle_first)

lemma set_survivors_hide:
  "r \<in> set (survivors ob ex urgent True d) \<Longrightarrow> r_status r = 0 \<or> r_status r = 1"
  by (auto simp: survivors_def Let_def hide_busy_rows_def)

lemma length_survivors:
  "length (survivors ob ex urgent hb d) \<le> length (select_workload ob d)"
proof -
  define a where "a = drop_excluded (excluded_ids ex) (select_workload ob d)"
  define b where "b = (if urgent then idle_first a else a)"
  have la: "length a \<le> length (select_workload ob d)"
    by (simp add: a_def drop_excluded_def)
  have lb: "length b = length a"
    by (simp add: b_def length_idle_first)
  define c where "c = (if hb then hide_busy_rows b else b)"
  have lc: "length c \<le> length b"
    by (simp add: c_def hide_busy_rows_def)
  have "survivors ob ex urgent hb d = c"
    by (simp add: survivors_def Let_def a_def b_def c_def)
  then show ?thesis using la lb lc by simp
qed

lemma length_select_rows: "length (select_rows d) = length (filter eligible (user d))"
  by (simp add: select_rows_eq)


text \<open>Where a row of the ordered result comes from.\<close>

lemma select_workload_origin:
  assumes "sql_order_by ob" and "distinct (map h_id (history d))"
    and "r \<in> set (select_workload ob d)"
  shows "\<exists>u \<in> set (user d). eligible u \<and> r_id r = u_id u \<and>
           r_status r = (if anti_repeat_spec d (u_id u) then - 1 else u_status u)"
proof -
  from assms(3) have "r \<in> set (select_rows d)"
    using set_select_workload [OF assms(1)] by simp
  then obtain u c where u: "u \<in> set (user d)" "eligible u" "r = select_row d (u, c)"
    unfolding select_rows_iff by blast
  have "effective_status d u = (if anti_repeat_spec d (u_id u) then - 1 else u_status u)"
    using last_reviewer_spec [OF assms(2), of "u_id u"]
    by (auto simp: effective_status_def)
  then have "r_id r = u_id u \<and>
      r_status r = (if anti_repeat_spec d (u_id u) then - 1 else u_status u)"
    using u(3) by (simp add: select_row_id select_row_status)
  then show ?thesis using u(1,2) by blast
qed

lemma office_users: "distinct (map u_id (user office))"
  by (simp add: office_def mk_user_def)

lemma office_pop_hide:
  "pop sort_key (PyInt 2) PyNone False True office =
     (Inr [mk_pop ''b'' 0 2 0, mk_pop ''c'' 1 0 1], ran_statement office)"
  by (simp add: pop_def Let_def office_workload drop_excluded_def hide_busy_rows_def
      slice_to_def mk_pop_def)

text \<open>
  C2. Whenever \<^verbatim>\<open>pop\<close> with \<^verbatim>\<open>hide_busy=True\<close> returns a list, whatever the count, the
  exclusions and the urgency flag, every row of that list has status 0 or 1. With distinct
  history ids, no row carries the id of the reviewer the anti-repeat condition flags; with
  distinct user ids as well, no row carries the id of a user whose stored status is 2.
\<close>

theorem pop_hide_busy:
  assumes "pop ob cnt ex urgent True d = (Inr rs, d')"
  shows "(\<forall>r \<in> set rs. r_status r = 0 \<or> r_status r = 1) \<and>
         (sql_order_by ob \<and> distinct (map h_id (history d)) \<longrightarrow>
            (\<forall>i. anti_repeat_spec d i \<longrightarrow> i \<notin> r_id ` set rs) \<and>
            (distinct (map u_id (user d)) \<longrightarrow>
               (\<forall>u \<in> set (user d). u_status u = 2 \<longrightarrow> u_id u \<notin> r_id ` set rs)))"
proof -
  from pop_Inr [OF assms] obtain n where
    rs: "rs = slice_to (survivors ob ex urgent True d) n" by blast
  have sub: "set rs \<subseteq> set (survivors ob ex urgent True d)"
    unfolding rs by (rule set_slice_to)
  have st: "r_status r = 0 \<or> r_status r = 1" if "r \<in> set rs" for r
    using that sub set_survivors_hide by blast
  have flagged: "i \<notin> r_id ` set rs"
    if ob: "sql_order_by ob" and hd: "distinct (map h_id (history d))"
      and ar: "anti_repeat_spec d i" for i
  proof
    assume "i \<in> r_id ` set rs"
    then obtain r where r: "r \<in> set rs" "r_id r = i" by blast
    then have "r \<in> set (select_workload ob d)" using sub set_survivors by blast
    from select_workload_origin [OF ob hd this] obtain u where "u \<in> set (user d)"
      "r_id r = u_id u" "r_status r = (if anti_repeat_spec d (u_id u) then - 1 else u_status u)"
      by blast
    then have "r_status r = - 1" using r(2) ar by simp
    with st [OF r(1)] show False by simp
  qed
  have very_busy: "u_id u \<notin> r_id ` set rs"
    if ob: "sql_order_by ob" and hd: "distinct (map h_id (history d))"
      and ud: "distinct (map u_id (user d))" and u: "u \<in> set (user d)" "u_status u = 2"
    for u :: user_row
  proof
    assume "u_id u \<in> r_id ` set rs"
    then obtain r where r: "r \<in> set rs" "r_id r = u_id u" by auto
    then have "r \<in> set (select_workload ob d)" using sub set_survivors by blast
    from select_workload_origin [OF ob hd this] obtain v where v: "v \<in> set (user d)"
      "r_id r = u_id v" "r_status r = (if anti_repeat_spec d (u_id v) then - 1 else u_status v)"
      by blast
    have "inj_on u_id (set (user d))" using ud by (simp add: distinct_map)
    then have "v = u" using v(1,2) u(1) r(2) by (metis inj_onD)
    then have "r_status r = - 1 \<or> r_status r = 2" using v(3) u(2) by simp
    with st [OF r(1)] show False by auto
  qed
  show ?thesis using st flagged very_busy by blast
qed

theorem pop_hide_busy_witness:
  "pop sort_key (PyInt 2) PyNone False True office =
     (Inr [mk_pop ''b'' 0 2 0, mk_pop ''c'' 1 0 1], ran_statement office) \<and>
   sql_order_by sort_key \<and> distinct (map h_id (history office)) \<and>
   distinct (map u_id (user office)) \<and> anti_repeat_spec office ''a'' \<and>
   ''a'' \<notin> r_id ` set [mk_pop ''b'' 0 2 0, mk_pop ''c'' 1 0 1] \<and>
   mk_user ''f'' 1 1 2 800000 9 \<in> set (user office) \<and>
   u_id (mk_user ''f'' 1 1 2 800000 9) \<notin> r_id ` set [mk_pop ''b'' 0 2 0, mk_pop ''c'' 1 0 1]"
proof -
  note t = pop_hide_busy [OF office_pop_hide]
  have ar: "anti_repeat_spec office ''a''"
    using last_reviewer_spec [OF office_history, of "''a''"]
    by (simp add: last_reviewer_def latest_history_def started_after_def office_def)
  have f: "mk_user ''f'' 1 1 2 800000 9 \<in> set (user office)"
    by (simp add: office_def)
  have fs: "u_status (mk_user ''f'' 1 1 2 800000 9) = 2"
    by (simp add: mk_user_def)
  from t sql_order_by_sort_key office_history ar
  have a: "''a'' \<notin> r_id ` set [mk_pop ''b'' 0 2 0, mk_pop ''c'' 1 0 1]" by blast
  from t sql_order_by_sort_key office_history office_users f fs
  have b: "u_id (mk_user ''f'' 1 1 2 800000 9) \<notin> r_id ` set [mk_pop ''b'' 0 2 0, mk_pop ''c'' 1 0 1]"
    by blast
  show ?thesis
    using a b f ar office_pop_hide sql_order_by_sort_key office_history office_users by blast
qed

section \<open>The empty pool, and an urgent run\<close>

lemma select_workload_no_eligible:
  assumes "sql_order_by ob" and "filter eligible (user d) = []"
  shows "select_workload ob d = []"
  using length_select_workload [OF assms(1), of d] assms(2)
  by (simp add: length_select_rows)


section \<open>The urgency stage\<close>




section \<open>The existence check of \<^verbatim>\<open>set_status\<close>\<close>

lemma fetchone_None: "fetchone xs = None \<longleftrightarrow> xs = []"
  by (cases xs) simp_all

lemma contains_any:
  "fst (contains i False d) \<longleftrightarrow> (\<exists>u \<in> set (user d). u_available u = 1 \<and> u_id u = i)"
  by (auto simp: contains_def fetchone_None filter_empty_conv)

lemma contains_reviewer:
  "fst (contains i True d) \<longleftrightarrow> (\<exists>u \<in> set (user d). eligible u \<and> u_id u = i)"
  by (auto simp: contains_def fetchone_None filter_empty_conv eligible_def)

lemma contains_tables: "tables (snd (contains i r d)) = tables d"
  by (simp add: contains_def tables_def ran_statement_def)

lemma set_status_cases:
  "set_status now i st d =
     (if \<not> fst (contains i False d)
      then (Inl (AssertionError ''invalid arg: user_id''), snd (contains i False d))
      else if st \<noteq> 0 \<and> st \<noteq> 1 \<and> st \<noteq> 2
      then (Inl (AssertionError ''invalid arg: status''), snd (contains i False d))
      else (Inr (), (snd (contains i False d))
              \<lparr>user := update_status i st now (user (snd (contains i False d))),
               executed := executed (snd (contains i False d)) + 1\<rparr>))"
  by (auto simp: set_status_def split: prod.splits)

text \<open>
  C3, as the code has it. \<^verbatim>\<open>set_status\<close> raises the assertion on \<^verbatim>\<open>user_id\<close> exactly when
  no row of the user table has that id with \<^verbatim>\<open>available = 1\<close>; the role is not looked at.
  Whenever \<^verbatim>\<open>set_status\<close> raises, the three tables are unchanged.
\<close>

theorem set_status_not_found:
  "(fst (set_status now i st d) = Inl (AssertionError ''invalid arg: user_id'') \<longleftrightarrow>
      \<not> (\<exists>u \<in> set (user d). u_available u = 1 \<and> u_id u = i)) \<and>
   (\<forall>e. fst (set_status now i st d) = Inl e \<longrightarrow> tables (snd (set_status now i st d)) = tables d)"
proof -
  have a: "fst (set_status now i st d) = Inl (AssertionError ''invalid arg: user_id'') \<longleftrightarrow>
      \<not> fst (contains i False d)"
    by (simp add: set_status_cases)
  have b: "tables (snd (set_status now i st d)) = tables d"
    if "fst (set_status now i st d) = Inl e" for e
    using that contains_tables [of i False d]
    by (simp add: set_status_cases split: if_splits)
  show ?thesis using a b contains_any by blast
qed

theorem set_status_not_found_witness:
  "fst (set_status day10 ''e'' 1 office) = Inl (AssertionError ''invalid arg: user_id'') \<and>
   tables (snd (set_status day10 ''e'' 1 office)) = tables office"
proof -
  note t = set_status_not_found [of day10 "''e''" 1 office]
  have "\<not> (\<exists>u \<in> set (user office). u_available u = 1 \<and> u_id u = ''e'')"
    by (simp add: office_def mk_user_def)
  with t have "fst (set_status day10 ''e'' 1 office) = Inl (AssertionError ''invalid arg: user_id'')"
    by blast
  with t show ?thesis by blast
qed

text \<open>
  The claim C3 as stated fails: user d of the example is an ordinary user, so the id
  resolves to no eligible reviewer, and \<^verbatim>\<open>set_status\<close> sets the status all the same.
\<close>

theorem set_status_not_found_counterexample:
  "\<not> (\<exists>u \<in> set (user office). u_id u = ''d'' \<and> eligible u) \<and>
   fst (set_status day10 ''d'' 1 office) = Inr () \<and>
   map u_status (user (snd (set_status day10 ''d'' 1 office))) = [0, 0, 1, 1, 2, 2]"
  by (simp add: set_status_def contains_def update_status_def office_def mk_user_def
      eligible_def ran_statement_def)

section \<open>The argument checks of \<^verbatim>\<open>pop\<close>\<close>

lemma slice_to_negative: "n < 0 \<Longrightarrow> slice_to xs n = take (length xs - nat (- n)) xs"
proof -
  assume "n < 0"
  then have "nat (int (length xs) + n) = length xs - nat (- n)" by linarith
  then show ?thesis using \<open>n < 0\<close> by (simp add: slice_to_def)
qed

lemma pop_bad_count:
  "(\<forall>n. cnt \<noteq> PyInt n) \<Longrightarrow>
   pop ob cnt ex urgent hb d = (Inl (AssertionError ''invalid arg: count''), d)"
  by (cases cnt) (simp_all add: pop_def)

lemma pop_bad_excludes:
  "\<not> well_formed_excludes ex \<Longrightarrow>
   pop ob (PyInt n) ex urgent hb d = (Inl (AssertionError ''invalid arg: excludes''), d)"
  by (cases ex) (simp_all add: pop_def well_formed_excludes_def)

text \<open>
  C4, as the code has it. \<^verbatim>\<open>pop\<close> raises, with no statement executed and the directory
  as it was, when \<^verbatim>\<open>count\<close> is not an int, and when \<^verbatim>\<open>count\<close> is an int and \<^verbatim>\<open>excludes\<close>
  is truthy and not a list. Every other call executes the statement and returns a list:
  the sign of \<^verbatim>\<open>count\<close> is not checked, and a negative \<^verbatim>\<open>count\<close> returns the surviving
  rows without their last \<open>- count\<close> ones.
\<close>

theorem pop_validation:
  "((\<forall>n. cnt \<noteq> PyInt n) \<longrightarrow>
      pop ob cnt ex urgent hb d = (Inl (AssertionError ''invalid arg: count''), d)) \<and>
   (\<not> well_formed_excludes ex \<longrightarrow>
      pop ob (PyInt n) ex urgent hb d = (Inl (AssertionError ''invalid arg: excludes''), d)) \<and>
   (well_formed_excludes ex \<longrightarrow>
      pop ob (PyInt n) ex urgent hb d =
        (Inr (slice_to (survivors ob ex urgent hb d) n), d\<lparr>executed := executed d + 1\<rparr>) \<and>
      (n < 0 \<longrightarrow> slice_to (survivors ob ex urgent hb d) n =
         take (length (survivors ob ex urgent hb d) - nat (- n)) (survivors ob ex urgent hb d)))"
  using pop_bad_count [of cnt ob ex urgent hb d] pop_bad_excludes [of ex ob n urgent hb d]
    pop_well_formed [of ex ob n urgent hb d]
    slice_to_negative [of n "survivors ob ex urgent hb d"]
  by (simp add: ran_statement_def)

theorem pop_validation_witness:
  "pop sort_key (PyStr ''2'') PyNone False True office =
     (Inl (AssertionError ''invalid arg: count''), office) \<and>
   \<not> well_formed_excludes (PyInt 5) \<and>
   pop sort_key (PyInt 2) (PyInt 5) False True office =
     (Inl (AssertionError ''invalid arg: excludes''), office) \<and>
   well_formed_excludes (PyInt 0) \<and>
   pop sort_key (PyInt (- 1)) (PyInt 0) False True office =
     (Inr (take (length (survivors sort_key (PyInt 0) False True office) - nat (- (- 1)))
            (survivors sort_key (PyInt 0) False True office)),
      office\<lparr>executed := executed office + 1\<rparr>)"
proof -
  have a: "\<forall>n. PyStr ''2'' \<noteq> PyInt n" by simp
  have b: "\<not> well_formed_excludes (PyInt 5)" by (simp add: well_formed_excludes_def)
  have c: "well_formed_excludes (PyInt 0)" by (simp add: well_formed_excludes_def)
  have e: "(- 1 :: int) < 0" by simp
  from pop_validation [of "PyStr ''2''" sort_key PyNone False True office] a
  have 1: "pop sort_key (PyStr ''2'') PyNone False True office =
     (Inl (AssertionError ''invalid arg: count''), office)" by blast
  from pop_validation [of "PyInt 2" sort_key "PyInt 5" False True office 2] b
  have 2: "pop sort_key (PyInt 2) (PyInt 5) False True office =
     (Inl (AssertionError ''invalid arg: excludes''), office)" by blast
  from pop_validation [of "PyInt (- 1)" sort_key "PyInt 0" False True office "- 1"] c e
  have 3: "pop sort_key (PyInt (- 1)) (PyInt 0) False True office =
     (Inr (take (length (survivors sort_key (PyInt 0) False True office) - nat (- (- 1)))
            (survivors sort_key (PyInt 0) False True office)),
      office\<lparr>executed := executed office + 1\<rparr>)" by metis
  show ?thesis using 1 2 3 b c by blast
qed

text \<open>
  The claim C4 as stated fails for a negative count: \<^verbatim>\<open>pop(-1)\<close> on the example executes
  the statement and returns a pick list, the rows b and c that \<^verbatim>\<open>pop(2)\<close> returns without
  the last one.
\<close>

theorem pop_validation_counterexample:
  "pop sort_key (PyInt (- 1)) PyNone False True office =
     (Inr [mk_pop ''b'' 0 2 0], ran_statement office) \<and>
   executed (ran_statement office) = executed office + 1"
proof -
  have "pop sort_key (PyInt (- 1)) PyNone False True office =
     (Inr [mk_pop ''b'' 0 2 0], ran_statement office)"
    by (simp add: pop_def Let_def office_workload drop_excluded_def hide_busy_rows_def
        slice_to_def mk_pop_def)
  then show ?thesis by (simp add: ran_statement_def)
qed

section \<open>The timeout sweep\<close>

lemma stale_same_day:
  "now' div 86400 = now div 86400 \<Longrightarrow> stale now' days u = stale now days u"
  by (simp add: stale_def DATEDIFF_def)

lemma reset_status_user:
  "user (reset_status now days d) =
     map (\<lambda>u. if stale now days u then u\<lparr>u_status := 0, u_status_since := now\<rparr> else u) (user d)"
  by (simp add: reset_status_def)

lemma reset_status_twice:
  assumes "now' div 86400 = now div 86400"
  shows "user (reset_status now' days (reset_status now days d)) = user (reset_status now days d)"
proof -
  have "\<not> stale now' days (if stale now days u then u\<lparr>u_status := 0, u_status_since := now\<rparr> else u)"
    for u
    using stale_same_day [OF assms, of days u] by (auto simp: stale_def)
  then show ?thesis
    by (simp add: reset_status_user)
qed

lemma reset_status_others:
  "current (reset_status now days d) = current d \<and> history (reset_status now days d) = history d"
  by (simp add: reset_status_def)

text \<open>
  C7. \<^verbatim>\<open>reset_status\<close> keeps the rows of the user table in place. A row whose status was
  not 0 and whose \<^verbatim>\<open>DATEDIFF(NOW(), status_since)\<close> (a difference of calendar days) is at
  least \<^verbatim>\<open>days\<close> has status 0 and \<^verbatim>\<open>status_since = NOW()\<close> afterwards, its other columns
  as before; every other row is unchanged, and so are the other tables. Running the sweep
  again on the same calendar day changes nothing more, and a sweep that matches no row
  changes nothing; the function has no failing branch.
\<close>

theorem reset_status_reclaims:
  "length (user (reset_status now days d)) = length (user d) \<and>
   (\<forall>i < length (user d).
      (u_status (user d ! i) \<noteq> 0 \<and> days \<le> DATEDIFF now (u_status_since (user d ! i)) \<longrightarrow>
         user (reset_status now days d) ! i =
           (user d ! i)\<lparr>u_status := 0, u_status_since := now\<rparr>) \<and>
      (\<not> (u_status (user d ! i) \<noteq> 0 \<and> days \<le> DATEDIFF now (u_status_since (user d ! i))) \<longrightarrow>
         user (reset_status now days d) ! i = user d ! i)) \<and>
   current (reset_status now days d) = current d \<and>
   history (reset_status now days d) = history d \<and>
   (now' div 86400 = now div 86400 \<longrightarrow>
      tables (reset_status now' days (reset_status now days d)) =
        tables (reset_status now days d)) \<and>
   ((\<forall>u \<in> set (user d). \<not> (u_status u \<noteq> 0 \<and> days \<le> DATEDIFF now (u_status_since u))) \<longrightarrow>
      tables (reset_status now days d) = tables d)"
proof -
  have a: "length (user (reset_status now days d)) = length (user d)"
    by (simp add: reset_status_user)
  have b: "user (reset_status now days d) ! i =
      (if u_status (user d ! i) \<noteq> 0 \<and> days \<le> DATEDIFF now (u_status_since (user d ! i))
       then (user d ! i)\<lparr>u_status := 0, u_status_since := now\<rparr> else user d ! i)"
    if "i < length (user d)" for i
    using that by (simp add: reset_status_user stale_def)
  have c: "tables (reset_status now' days (reset_status now days d)) =
        tables (reset_status now days d)" if "now' div 86400 = now div 86400"
    using reset_status_twice [OF that] reset_status_others by (simp add: tables_def)
  have e: "tables (reset_status now days d) = tables d"
    if "\<forall>u \<in> set (user d). \<not> (u_status u \<noteq> 0 \<and> days \<le> DATEDIFF now (u_status_since u))"
  proof -
    have "map (\<lambda>u. if stale now days u then u\<lparr>u_status := 0, u_status_since := now\<rparr> else u)
            (user d) = user d"
      using that by (intro map_idI) (auto simp: stale_def)
    then show ?thesis
      using reset_status_others by (simp add: tables_def reset_status_user)
  qed
  show ?thesis
    using a b c e reset_status_others by simp
qed

theorem reset_status_reclaims_witness:
  "(2::nat) < length (user office) \<and> u_status (user office ! 2) \<noteq> 0 \<and>
   7 \<le> DATEDIFF day10 (u_status_since (user office ! 2)) \<and>
   user (reset_status day10 7 office) ! 2 = mk_user ''c'' 1 1 0 day10 5 \<and>
   (5::nat) < length (user office) \<and> u_status (user office ! 5) \<noteq> 0 \<and>
   \<not> 7 \<le> DATEDIFF day10 (u_status_since (user office ! 5)) \<and>
   user (reset_status day10 7 office) ! 5 = user office ! 5 \<and>
   tables (reset_status day10 7 (reset_status day10 7 office)) =
     tables (reset_status day10 7 office)"
proof -
  note t = reset_status_reclaims [of day10 7 office day10]
  have l: "(2::nat) < length (user office)" "(5::nat) < length (user office)"
    by (simp_all add: office_def)
  have c: "u_status (user office ! 2) \<noteq> 0 \<and> 7 \<le> DATEDIFF day10 (u_status_since (user office ! 2))"
    by (simp add: office_def mk_user_def DATEDIFF_def day10_def)
  have f: "u_status (user office ! 5) \<noteq> 0 \<and> \<not> 7 \<le> DATEDIFF day10 (u_status_since (user office ! 5))"
    by (simp add: office_def mk_user_def DATEDIFF_def day10_def)
  from t l(1) c have 1: "user (reset_status day10 7 office) ! 2 =
      (user office ! 2)\<lparr>u_status := 0, u_status_since := day10\<rparr>" by blast
  from t l(2) f have 2: "user (reset_status day10 7 office) ! 5 = user office ! 5" by blast
  from t have 3: "tables (reset_status day10 7 (reset_status day10 7 office)) =
     tables (reset_status day10 7 office)" by blast
  have 4: "(user office ! 2)\<lparr>u_status := 0, u_status_since := day10\<rparr> = mk_user ''c'' 1 1 0 day10 5"
    by (simp add: office_def mk_user_def)
  show ?thesis using l c f 1 2 3 4 by simp
qed

section \<open>The status invariant\<close>

lemma update_status_valid:
  assumes "\<forall>u \<in> set us. u_status u = 0 \<or> u_status u = 1 \<or> u_status u = 2"
    and "st = 0 \<or> st = 1 \<or> st = 2"
  shows "\<forall>u \<in> set (update_status i st now us). u_status u = 0 \<or> u_status u = 1 \<or> u_status u = 2"
  using assms by (auto simp: update_status_def)

lemma set_status_valid:
  assumes "valid_statuses d"
  shows "valid_statuses (snd (set_status now i st d))"
proof -
  have c: "user (snd (contains i False d)) = user d"
    by (simp add: contains_def ran_statement_def)
  show ?thesis
  proof (cases "fst (contains i False d) \<and> (st = 0 \<or> st = 1 \<or> st = 2)")
    case True
    then have "user (snd (set_status now i st d)) = update_status i st now (user d)"
      by (auto simp: set_status_cases c)
    then show ?thesis
      using update_status_valid [of "user d" st i now] assms True
      by (simp add: valid_statuses_def)
  next
    case False
    then have "user (snd (set_status now i st d)) = user d"
      by (auto simp: set_status_cases c)
    then show ?thesis using assms by (simp add: valid_statuses_def)
  qed
qed

lemma set_status_rejects:
  assumes "st \<noteq> 0" "st \<noteq> 1" "st \<noteq> 2"
  shows "(\<exists>e. fst (set_status now i st d) = Inl e) \<and>
         tables (snd (set_status now i st d)) = tables d"
  using assms contains_tables [of i False d] by (simp add: set_status_cases)

lemma reset_status_valid:
  assumes "valid_statuses d"
  shows "valid_statuses (reset_status now days d)"
  using assms by (auto simp: valid_statuses_def reset_status_user)

lemma reset_status_writes_idle:
  "list_all2 (\<lambda>u u'. u' = u \<or> u_status u' = 0) (user d) (user (reset_status now days d))"
  by (simp add: reset_status_user list_all2_map2 list_all2_same)

lemma pop_tables: "tables (snd (pop ob cnt ex urgent hb d)) = tables d"
proof (cases "\<exists>n. cnt = PyInt n")
  case True
  then obtain n where n: "cnt = PyInt n" by blast
  show ?thesis
  proof (cases "well_formed_excludes ex")
    case True
    then show ?thesis
      unfolding n by (simp add: pop_well_formed tables_def ran_statement_def)
  next
    case False
    then show ?thesis
      unfolding n by (simp add: pop_bad_excludes)
  qed
next
  case False
  then show ?thesis by (simp add: pop_bad_count)
qed

lemma search_tables: "tables (snd (search like a b c r d)) = tables d"
  by (simp add: search_def tables_def ran_statement_def)

lemma fetch_tables: "tables (snd (fetch i d)) = tables d"
  by (simp add: fetch_def tables_def ran_statement_def)

text \<open>
  C9. The invariant that every stored status is 0, 1 or 2 is kept by \<^verbatim>\<open>set_status\<close>,
  whatever its result, and by \<^verbatim>\<open>reset_status\<close>. \<^verbatim>\<open>set_status\<close> with a status other than
  0, 1, 2 raises and leaves the tables as they were; \<^verbatim>\<open>reset_status\<close> leaves each row as
  it was or with status 0; \<^verbatim>\<open>pop\<close>, \<^verbatim>\<open>search\<close>, \<^verbatim>\<open>fetch\<close> and \<^verbatim>\<open>__contains__\<close> leave the
  tables as they were.
\<close>

theorem status_invariant:
  "(valid_statuses d \<longrightarrow> valid_statuses (snd (set_status now i st d))) \<and>
   (st \<noteq> 0 \<and> st \<noteq> 1 \<and> st \<noteq> 2 \<longrightarrow>
      (\<exists>e. fst (set_status now i st d) = Inl e) \<and>
      tables (snd (set_status now i st d)) = tables d) \<and>
   (valid_statuses d \<longrightarrow> valid_statuses (reset_status now days d)) \<and>
   list_all2 (\<lambda>u u'. u' = u \<or> u_status u' = 0) (user d) (user (reset_status now days d)) \<and>
   tables (snd (pop ob cnt ex urgent hb d)) = tables d \<and>
   tables (snd (search like a b c r d)) = tables d \<and>
   tables (snd (fetch i d)) = tables d \<and>
   tables (snd (contains i r d)) = tables d"
  using set_status_valid [of d now i st] set_status_rejects [of st now i d]
    reset_status_valid [of d now days] reset_status_writes_idle [of d now days]
    pop_tables [of ob cnt ex urgent hb d] search_tables [of like a b c r d]
    fetch_tables [of i d] contains_tables [of i r d]
  by blast

theorem status_invariant_witness:
  "valid_statuses office \<and>
   valid_statuses (snd (set_status day10 ''c'' 2 office)) \<and>
   map u_status (user (snd (set_status day10 ''c'' 2 office))) = [0, 0, 2, 2, 2, 2] \<and>
   (7::int) \<noteq> 0 \<and> (7::int) \<noteq> 1 \<and> (7::int) \<noteq> 2 \<and>
   fst (set_status day10 ''c'' 7 office) = Inl (AssertionError ''invalid arg: status'') \<and>
   tables (snd (set_status day10 ''c'' 7 office)) = tables office \<and>
   valid_statuses (reset_status day10 7 office)"
proof -
  have v: "valid_statuses office"
    by (simp add: valid_statuses_def office_def mk_user_def)
  from status_invariant [of office day10 "''c''" 2 7] v
  have 1: "valid_statuses (snd (set_status day10 ''c'' 2 office))"
    and 2: "valid_statuses (reset_status day10 7 office)" by blast+
  from status_invariant [of office day10 "''c''" 7 7]
  have 3: "tables (snd (set_status day10 ''c'' 7 office)) = tables office" by simp
  have 4: "fst (set_status day10 ''c'' 7 office) = Inl (AssertionError ''invalid arg: status'')"
    by (simp add: set_status_def contains_def office_def mk_user_def)
  have 5: "map u_status (user (snd (set_status day10 ''c'' 2 office))) = [0, 0, 2, 2, 2, 2]"
    by (simp add: set_status_def contains_def update_status_def office_def mk_user_def
        ran_statement_def)
  show ?thesis using v 1 2 3 4 5 by simp
qed

section \<open>Lookup by id\<close>

lemma filter_distinct_key:
  "distinct (map f xs) \<Longrightarrow> x \<in> set xs \<Longrightarrow> filter (\<lambda>y. f y = f x) xs = [x]"
proof (induction xs)
  case Nil
  then show ?case by simp
next
  case (Cons a xs)
  show ?case
  proof (cases "a = x")
    case True
    have "f x \<notin> f ` set xs"
      using Cons.prems(1) True by simp
    then have "\<forall>y \<in> set xs. f y \<noteq> f x"
      by (metis imageI)
    then have "filter (\<lambda>y. f y = f x) xs = []"
      by (simp add: filter_empty_conv)
    then show ?thesis using True by simp
  next
    case False
    then have "x \<in> set xs" using Cons.prems(2) by simp
    moreover have "f a \<noteq> f x" using Cons.prems(1) calculation by auto
    ultimately show ?thesis using Cons by simp
  qed
qed

lemma fetchone_map: "fetchone (map f xs) = map_option f (fetchone xs)"
  by (cases xs) simp_all

lemma fetchone_filter_Some:
  "x \<in> set xs \<Longrightarrow> P x \<Longrightarrow> \<exists>v \<in> set xs. P v \<and> fetchone (filter P xs) = Some v"
proof -
  assume "x \<in> set xs" "P x"
  then have "filter P xs \<noteq> []" by (auto simp: filter_empty_conv)
  then obtain v vs where v: "filter P xs = v # vs" by (cases "filter P xs") auto
  then have "v \<in> set (filter P xs)" by simp
  then have "v \<in> set xs \<and> P v" by simp
  then show ?thesis using v by auto
qed

text \<open>
  C10. \<^verbatim>\<open>fetch\<close> selects by id alone. For the id of any stored row, whatever its
  \<^verbatim>\<open>available\<close> and \<^verbatim>\<open>role\<close>, it returns the tuple of a stored row with that id, which is
  that row itself when ids are distinct. For an id that no stored row has it returns
  \<^verbatim>\<open>None\<close>; no branch of it raises.
\<close>

theorem fetch_by_id:
  "(\<forall>u \<in> set (user d). \<exists>v \<in> set (user d).
      u_id v = u_id u \<and> fst (fetch (u_id u) d) = Some (user_tuple_of v)) \<and>
   (distinct (map u_id (user d)) \<longrightarrow>
      (\<forall>u \<in> set (user d). fst (fetch (u_id u) d) = Some (user_tuple_of u))) \<and>
   (i \<notin> u_id ` set (user d) \<longrightarrow> fst (fetch i d) = None)"
proof -
  have a: "\<exists>v \<in> set (user d). u_id v = u_id u \<and> fst (fetch (u_id u) d) = Some (user_tuple_of v)"
    if "u \<in> set (user d)" for u
    using fetchone_filter_Some [of u "user d" "\<lambda>v. u_id v = u_id u"] that
    by (auto simp: fetch_def fetchone_map)
  have b: "fst (fetch (u_id u) d) = Some (user_tuple_of u)"
    if "distinct (map u_id (user d))" "u \<in> set (user d)" for u
    using filter_distinct_key [OF that] by (simp add: fetch_def)
  have c: "fst (fetch i d) = None" if "i \<notin> u_id ` set (user d)"
  proof -
    have "filter (\<lambda>u. u_id u = i) (user d) = []"
      using that by (auto simp: filter_empty_conv)
    then show ?thesis by (simp add: fetch_def)
  qed
  show ?thesis using a b c by blast
qed

theorem fetch_by_id_witness:
  "distinct (map u_id (user office)) \<and>
   mk_user ''e'' 1 0 2 0 1 \<in> set (user office) \<and>
   u_available (mk_user ''e'' 1 0 2 0 1) = 0 \<and>
   fst (fetch ''e'' office) = Some (''e'', ''e'', ''e'', 1, 2) \<and>
   mk_user ''d'' 0 1 2 0 0 \<in> set (user office) \<and>
   u_role (mk_user ''d'' 0 1 2 0 0) = 0 \<and>
   fst (fetch ''d'' office) = Some (''d'', ''d'', ''d'', 0, 2) \<and>
   ''zz'' \<notin> u_id ` set (user office) \<and>
   fst (fetch ''zz'' office) = None"
proof -
  note t = fetch_by_id [of office "''zz''"]
  have e: "mk_user ''e'' 1 0 2 0 1 \<in> set (user office)"
    and d: "mk_user ''d'' 0 1 2 0 0 \<in> set (user office)"
    and z: "''zz'' \<notin> u_id ` set (user office)"
    by (simp_all add: office_def mk_user_def)
  from t office_users e have "fst (fetch (u_id (mk_user ''e'' 1 0 2 0 1)) office) =
      Some (user_tuple_of (mk_user ''e'' 1 0 2 0 1))" by blast
  then have 1: "fst (fetch ''e'' office) = Some (''e'', ''e'', ''e'', 1, 2)"
    by (simp add: mk_user_def user_tuple_of_def)
  from t office_users d have "fst (fetch (u_id (mk_user ''d'' 0 1 2 0 0)) office) =
      Some (user_tuple_of (mk_user ''d'' 0 1 2 0 0))" by blast
  then have 2: "fst (fetch ''d'' office) = Some (''d'', ''d'', ''d'', 0, 2)"
    by (simp add: mk_user_def user_tuple_of_def)
  from t z have 3: "fst (fetch ''zz'' office) = None" by blast
  show ?thesis using office_users e d z 1 2 3 by (simp add: mk_user_def)
qed

section \<open>The rows of the result and the tables\<close>

lemma effective_status_spec:
  assumes "distinct (map h_id (history d))"
  shows "effective_status d u = (if anti_repeat_spec d (u_id u) then - 1 else u_status u)"
  using last_reviewer_spec [OF assms, of "u_id u"]
  by (auto simp: effective_status_def)













lemma office_pop_excluded:
  "pop sort_key (PyInt 5) (PyList [PyStr ''b'']) False True office =
     (Inr [mk_pop ''c'' 1 0 1], ran_statement office)"
  by (simp add: pop_def Let_def office_workload drop_excluded_def hide_busy_rows_def
      slice_to_def mk_pop_def)



section \<open>Truncation and the reviewers left\<close>

lemma mset_idle_first: "mset (idle_first rs) = mset rs"
  by (simp add: idle_first_def)

lemma mset_survivors:
  "mset (survivors ob ex urgent hb d) =
     mset (filter (\<lambda>r. PyStr (r_id r) \<notin> set (excluded_ids ex) \<and>
                        (hb \<longrightarrow> r_status r = 0 \<or> r_status r = 1)) (select_workload ob d))"
  by (cases urgent; cases hb)
     (simp_all add: survivors_def Let_def drop_excluded_def hide_busy_rows_def
        mset_idle_first filter_filter_mset)

lemma survivors_ids:
  assumes "sql_order_by ob" and "distinct (map h_id (history d))"
  shows "mset (map r_id (survivors ob ex urgent hb d)) =
           mset (map u_id (surviving_reviewers d (excluded_ids ex) hb))"
proof -
  define g where "g = (\<lambda>u. select_row d (u, if u_id u \<in> c_reviewerid ` set (current d)
                   then Some (int (length (filter (\<lambda>c. c_reviewerid c = u_id u) (current d))))
                   else None))"
  define Q where "Q = (\<lambda>r :: pop_row. PyStr (r_id r) \<notin> set (excluded_ids ex) \<and>
                        (hb \<longrightarrow> r_status r = 0 \<or> r_status r = 1))"
  have rows: "select_rows d = map g (filter eligible (user d))"
    by (simp add: g_def select_rows_eq)
  have "mset (select_workload ob d) = mset (select_rows d)"
    using assms(1) by (simp add: sql_order_by_def select_workload_def)
  then have "mset (filter Q (select_workload ob d)) = mset (filter Q (select_rows d))"
    by simp
  then have "mset (survivors ob ex urgent hb d) = mset (filter Q (select_rows d))"
    by (simp only: mset_survivors Q_def)
  then have A: "mset (map r_id (survivors ob ex urgent hb d)) =
      mset (map r_id (filter Q (select_rows d)))"
    by simp
  have B: "filter Q (select_rows d) = map g (filter (Q \<circ> g) (filter eligible (user d)))"
    unfolding rows by (rule filter_map)
  have C: "map r_id (map g xs) = map u_id xs" for xs
    by (simp add: g_def select_row_id)
  have D: "filter (Q \<circ> g) (filter eligible (user d)) =
      surviving_reviewers d (excluded_ids ex) hb"
    unfolding filter_filter surviving_reviewers_def
  proof (rule filter_cong [OF refl])
    fix u assume "u \<in> set (user d)"
    have "r_id (g u) = u_id u"
      and "r_status (g u) = (if anti_repeat_spec d (u_id u) then - 1 else u_status u)"
      by (simp_all add: g_def select_row_id select_row_status effective_status_spec [OF assms(2)])
    then show "(eligible u \<and> (Q \<circ> g) u) =
        (u_available u = 1 \<and> u_role u = 1 \<and> PyStr (u_id u) \<notin> set (excluded_ids ex) \<and>
           (hb \<longrightarrow> \<not> anti_repeat_spec d (u_id u) \<and> (u_status u = 0 \<or> u_status u = 1)))"
      by (auto simp: Q_def eligible_def)
  qed
  show ?thesis by (simp only: A B D C)
qed

lemma survivors_length:
  assumes "sql_order_by ob" and "distinct (map h_id (history d))"
  shows "length (survivors ob ex urgent hb d) =
           length (surviving_reviewers d (excluded_ids ex) hb)"
proof -
  have "size (mset (map r_id (survivors ob ex urgent hb d))) =
      size (mset (map u_id (surviving_reviewers d (excluded_ids ex) hb)))"
    by (simp only: survivors_ids [OF assms])
  then show ?thesis by simp
qed

lemma survivors_id_set:
  assumes "sql_order_by ob" and "distinct (map h_id (history d))"
  shows "r_id ` set (survivors ob ex urgent hb d) =
           u_id ` set (surviving_reviewers d (excluded_ids ex) hb)"
proof -
  have "set_mset (mset (map r_id (survivors ob ex urgent hb d))) =
      set_mset (mset (map u_id (surviving_reviewers d (excluded_ids ex) hb)))"
    by (simp only: survivors_ids [OF assms])
  then show ?thesis by simp
qed

lemma length_slice_to_min: "0 \<le> n \<Longrightarrow> length (slice_to xs n) = min (nat n) (length xs)"
  by (simp add: slice_to_def min.commute)

text \<open>
  C8. For a well-formed \<^verbatim>\<open>excludes\<close> (a list, or a falsy value) \<^verbatim>\<open>pop\<close> returns a list
  and raises nothing. The list is no longer than the count when the count is not
  negative, and the count 0 gives the empty list. For every engine sort the list is no
  longer than the number of eligible users, and empty when no user is eligible. With
  distinct history ids it is no longer than the number of eligible reviewers that the
  stages leave (not excluded and, when the busy are hidden, not flagged and of stored
  status 0 or 1), its ids are ids of such reviewers, and for a count that is not negative
  its length is the smaller of the count and that number.
\<close>

theorem pop_truncation_bound:
  assumes "well_formed_excludes ex"
  shows "\<exists>rs. pop ob (PyInt n) ex urgent hb d = (Inr rs, ran_statement d) \<and>
           (0 \<le> n \<longrightarrow> length rs \<le> nat n) \<and>
           (n = 0 \<longrightarrow> rs = []) \<and>
           (sql_order_by ob \<longrightarrow>
              length rs \<le> length (filter eligible (user d)) \<and>
              (filter eligible (user d) = [] \<longrightarrow> rs = []) \<and>
              (distinct (map h_id (history d)) \<longrightarrow>
                 length rs \<le> length (surviving_reviewers d (excluded_ids ex) hb) \<and>
                 r_id ` set rs \<subseteq> u_id ` set (surviving_reviewers d (excluded_ids ex) hb) \<and>
                 (0 \<le> n \<longrightarrow>
                    length rs = min (nat n)
                      (length (surviving_reviewers d (excluded_ids ex) hb)))))"
proof -
  let ?S = "survivors ob ex urgent hb d"
  let ?rs = "slice_to ?S n"
  have p: "pop ob (PyInt n) ex urgent hb d = (Inr ?rs, ran_statement d)"
    by (rule pop_well_formed [OF assms])
  have a: "0 \<le> n \<longrightarrow> length ?rs \<le> nat n"
    by (simp add: length_slice_to_count)
  have b: "length ?rs \<le> length ?S"
    by (rule length_slice_to)
  have c: "n = 0 \<longrightarrow> ?rs = []"
    by (simp add: slice_to_def)
  have e: "length ?rs \<le> length (filter eligible (user d))" if "sql_order_by ob"
    using b length_survivors [of ob ex urgent hb d] length_select_workload [OF that, of d]
    by (simp add: length_select_rows)
  have f: "?rs = []" if "sql_order_by ob" "filter eligible (user d) = []"
    using e [OF that(1)] that(2) by simp
  have g: "length ?rs \<le> length (surviving_reviewers d (excluded_ids ex) hb)"
    if "sql_order_by ob" "distinct (map h_id (history d))"
    using b survivors_length [OF that] by simp
  have h: "r_id ` set ?rs \<subseteq> u_id ` set (surviving_reviewers d (excluded_ids ex) hb)"
    if "sql_order_by ob" "distinct (map h_id (history d))"
    using set_slice_to [of ?S n] survivors_id_set [OF that, of ex urgent hb] by blast
  have i: "length ?rs = min (nat n) (length (surviving_reviewers d (excluded_ids ex) hb))"
    if "sql_order_by ob" "distinct (map h_id (history d))" "0 \<le> n"
    using length_slice_to_min [OF that(3), of ?S] survivors_length [OF that(1,2)] by simp
  show ?thesis using p a c e f g h i by blast
qed

theorem pop_truncation_bound_witness:
  "well_formed_excludes (PyList [PyStr ''b'']) \<and> sql_order_by sort_key \<and>
   distinct (map h_id (history office)) \<and>
   pop sort_key (PyInt 5) (PyList [PyStr ''b'']) False True office =
     (Inr [mk_pop ''c'' 1 0 1], ran_statement office) \<and>
   length (surviving_reviewers office [PyStr ''b''] True) = 1 \<and>
   r_id ` set [mk_pop ''c'' 1 0 1] \<subseteq> u_id ` set (surviving_reviewers office [PyStr ''b''] True) \<and>
   pop sort_key (PyInt 1) (PyList [PyStr ''b'']) True False office =
     (Inr [mk_pop ''a'' (- 1) 0 0], ran_statement office) \<and>
   length [mk_pop ''a'' (- 1) 0 0] \<le> nat 1"
proof -
  have wf: "well_formed_excludes (PyList [PyStr ''b''])"
    by (simp add: well_formed_excludes_def)
  have ex: "excluded_ids (PyList [PyStr ''b'']) = [PyStr ''b'']"
    by (simp add: excluded_ids_def)
  have z: "(0::int) \<le> 5" by simp
  from pop_truncation_bound [OF wf, of sort_key 5 False True office]
    office_pop_excluded sql_order_by_sort_key office_history z
  have "length [mk_pop ''c'' 1 0 1] =
      min (nat 5) (length (surviving_reviewers office (excluded_ids (PyList [PyStr ''b''])) True)) \<and>
    r_id ` set [mk_pop ''c'' 1 0 1] \<subseteq>
      u_id ` set (surviving_reviewers office (excluded_ids (PyList [PyStr ''b''])) True)"
    by auto
  then have 1: "length (surviving_reviewers office [PyStr ''b''] True) = 1"
    and 2: "r_id ` set [mk_pop ''c'' 1 0 1] \<subseteq>
      u_id ` set (surviving_reviewers office [PyStr ''b''] True)"
    unfolding ex by (simp_all add: min_def split: if_splits)
  have 3: "pop sort_key (PyInt 1) (PyList [PyStr ''b'']) True False office =
     (Inr [mk_pop ''a'' (- 1) 0 0], ran_statement office)"
    by (simp add: pop_def Let_def office_workload drop_excluded_def idle_first_def
      slice_to_def mk_pop_def)
  show ?thesis
    using wf sql_order_by_sort_key office_history office_pop_excluded 1 2 3 by simp
qed

end
